theory Spec2Isabelle
  imports Complex_Main
begin

section \<open>The playlist player of \<open>homeassistant/components/playlist_player.py\<close>\<close>

text \<open>
  The component keeps, per media-player entity, one \<open>PlaylistPlayer\<close> object in the
  dictionary \<open>hass.data[DATA_PLAYLIST_PLAYERS]\<close>. The objects are mutable and are reached
  both through that dictionary and through \<open>self\<close> while a method runs (also after the
  method has deleted the dictionary entry), so the model has an explicit object store:
  a reference is a natural number, \<open>objects\<close> maps references to objects, and the
  dictionary maps entity ids to references.

  Every handler returns \<open>None\<close> in Python, so the result of a model function is the
  exception raised, if any, paired with the state the call leaves behind.

  Times (\<open>time.time()\<close>, durations, positions) are Python floats; the model reads them as
  exact reals. The value of \<open>time.time()\<close> is an argument of the functions that read the
  clock; each call path reads it at most once.
\<close>

subsection \<open>Constants imported from the host platform\<close>

text \<open>
  Modelled from the spec: the string constants below are imported from
  \<open>homeassistant.const\<close> and \<open>homeassistant.components.media_player\<close>, which are not part
  of the source file. The spec names the four player-state kinds Idle, Playing, Paused and
  Off and treats every other kind as unrecognized; the values written here are the host
  platform's, and the development uses only that the four are different strings.
\<close>

definition STATE_IDLE :: string where "STATE_IDLE = ''idle''"
definition STATE_PAUSED :: string where "STATE_PAUSED = ''paused''"
definition STATE_PLAYING :: string where "STATE_PLAYING = ''playing''"
definition STATE_OFF :: string where "STATE_OFF = ''off''"

definition ATTR_MEDIA_DURATION :: string where "ATTR_MEDIA_DURATION = ''media_duration''"
definition ATTR_MEDIA_POSITION :: string where "ATTR_MEDIA_POSITION = ''media_position''"

subsection \<open>Data\<close>

datatype error = RuntimeError string | KeyError | AttributeError

text \<open>
  \<open>call.data\<close> of the play service. The service is registered with
  \<open>MEDIA_PLAYER_PLAY_MEDIA_SCHEMA\<close>, so the entity ids are a list of strings when the key
  is there (\<open>.get\<close> gives \<open>None\<close> when it is not) and the content id is a string; the
  remaining keys are forwarded untouched.
\<close>

record call_data =
  cd_entity_id :: "string list option"
  cd_media_content_id :: string
  cd_other :: "(string \<times> string) list"

text \<open>
  \<open>self.data\<close>: the copy of \<open>call.data\<close> in which \<open>ATTR_ENTITY_ID\<close> is overwritten by
  \<open>self.entity_id\<close> (a single id, or \<open>None\<close>) and \<open>ATTR_MEDIA_CONTENT_ID\<close> by the id popped
  from \<open>self.media_ids\<close>.
\<close>

record service_data =
  sd_entity_id :: "string option"
  sd_media_content_id :: string
  sd_other :: "(string \<times> string) list"

text \<open>
  A \<open>PlaylistPlayer\<close> object. \<open>__init__\<close> sets \<open>entity_id\<close> and the three times;
  \<open>data\<close>, \<open>media_ids\<close> and \<open>state\<close> do not exist until \<open>async_play\<close> assigns them
  (\<open>None\<close> here: reading them raises \<open>AttributeError\<close>). \<open>entity_id\<close> is \<open>None\<close> after
  \<open>async_stop\<close>.
\<close>

record PlaylistPlayer =
  entity_id :: "string option"
  start_time :: real
  time_left :: real
  time_past :: real
  data :: "service_data option"
  media_ids :: "string list option"
  state :: "string option"

text \<open>The \<open>new_state\<close> of a state-changed event: its \<open>state\<close> string and its attributes.\<close>

record State =
  ns_state :: string
  ns_attributes :: "string \<rightharpoonup> real"

record event =
  ev_entity_id :: "string option"
  ev_new_state :: "State option"

text \<open>
  The part of \<open>hass\<close> the component touches: the object store with its allocation
  counter, the dictionary \<open>hass.data[DATA_PLAYLIST_PLAYERS]\<close> (created by \<open>async_setup\<close>
  before either handler is registered), and the log of the jobs handed to
  \<open>hass.async_add_job\<close>. Every job is
  \<open>hass.services.async_call(MEDIA_PLAYER_DOMAIN, SERVICE_PLAY_MEDIA, self.data)\<close>, so the
  log records the contents of \<open>self.data\<close> at the time of the call.
\<close>

record hass =
  objects :: "nat \<Rightarrow> PlaylistPlayer"
  next_ref :: nat
  data_playlist_players :: "string \<rightharpoonup> nat"
  jobs :: "service_data list"

type_synonym outcome = "error option \<times> hass"

subsection \<open>Helpers of the model\<close>

text \<open>Assignment to fields of the object behind a reference.\<close>

definition upd :: "nat \<Rightarrow> (PlaylistPlayer \<Rightarrow> PlaylistPlayer) \<Rightarrow> hass \<Rightarrow> hass" where
  "upd self f h = h\<lparr>objects := (objects h)(self := f (objects h self))\<rparr>"

text \<open>Sequencing: an exception of the first statement skips the rest.\<close>

definition and_then :: "outcome \<Rightarrow> (hass \<Rightarrow> outcome) \<Rightarrow> outcome" where
  "and_then res k = (case res of (None, h) \<Rightarrow> k h | (Some e, h) \<Rightarrow> (Some e, h))"

text \<open>\<open>str.split(sep)\<close> for a one-character separator.\<close>

fun split :: "char \<Rightarrow> string \<Rightarrow> string list" where
  "split c [] = [[]]"
| "split c (x # xs) =
     (if x = c then [] # split c xs
      else (let r = split c xs in (x # hd r) # tl r))"

subsection \<open>The class \<open>PlaylistPlayer\<close>\<close>

definition PlaylistPlayer_init :: "string \<Rightarrow> PlaylistPlayer" where
  "PlaylistPlayer_init eid =
     \<lparr>entity_id = Some eid, start_time = 0, time_left = 0, time_past = 0,
      data = None, media_ids = None, state = None\<rparr>"

text \<open>
  \<open>async_stop\<close>: \<open>del\<close> raises \<open>KeyError\<close> when \<open>self.entity_id\<close> is not a key of the
  dictionary; the keys are entity ids, so \<open>None\<close> never is one.
\<close>

definition PlaylistPlayer_async_stop :: "nat \<Rightarrow> hass \<Rightarrow> outcome" where
  "PlaylistPlayer_async_stop self h =
     (case entity_id (objects h self) of
        None \<Rightarrow> (Some KeyError, h)
      | Some eid \<Rightarrow>
          (if data_playlist_players h eid = None then (Some KeyError, h)
           else (None, upd self (\<lambda>p. p\<lparr>entity_id := None\<rparr>)
                   (h\<lparr>data_playlist_players := (data_playlist_players h)(eid := None)\<rparr>))))"

text \<open>
  \<open>async_media_next_track\<close>: \<open>self.media_ids.pop(0)\<close> is evaluated before \<open>self.data\<close> is
  looked up for the item assignment.
\<close>

definition PlaylistPlayer_async_media_next_track :: "nat \<Rightarrow> hass \<Rightarrow> outcome" where
  "PlaylistPlayer_async_media_next_track self h =
     (case media_ids (objects h self) of
        None \<Rightarrow> (Some AttributeError, h)
      | Some [] \<Rightarrow> PlaylistPlayer_async_stop self h
      | Some (m # ms) \<Rightarrow>
          (let h1 = upd self (\<lambda>p. p\<lparr>media_ids := Some ms\<rparr>) h in
           case data (objects h1 self) of
             None \<Rightarrow> (Some AttributeError, h1)
           | Some d \<Rightarrow>
               (let d' = d\<lparr>sd_media_content_id := m\<rparr>;
                    h2 = upd self (\<lambda>p. p\<lparr>data := Some d'\<rparr>) h1
                in (None, h2\<lparr>jobs := jobs h2 @ [d']\<rparr>))))"

definition PlaylistPlayer_async_play :: "nat \<Rightarrow> call_data \<Rightarrow> hass \<Rightarrow> outcome" where
  "PlaylistPlayer_async_play self cd h =
     (let h1 = upd self (\<lambda>p. p\<lparr>data := Some \<lparr>sd_entity_id = entity_id p,
                   sd_media_content_id = cd_media_content_id cd,
                   sd_other = cd_other cd\<rparr>\<rparr>) h;
          h2 = upd self (\<lambda>p. p\<lparr>media_ids := Some (split CHR '','' (cd_media_content_id cd))\<rparr>) h1;
          h3 = upd self (\<lambda>p. p\<lparr>state := Some STATE_IDLE\<rparr>) h2
      in PlaylistPlayer_async_media_next_track self h3)"

text \<open>The last statement of \<open>async_state_changed\<close>: \<open>self.state = new_state.state\<close>.\<close>

definition set_state :: "nat \<Rightarrow> State \<Rightarrow> hass \<Rightarrow> outcome" where
  "set_state self new_state h = (None, upd self (\<lambda>p. p\<lparr>state := Some (ns_state new_state)\<rparr>) h)"

text \<open>\<open>new_state.attributes.get(key, 0)\<close>.\<close>

definition attr_get :: "State \<Rightarrow> string \<Rightarrow> real" where
  "attr_get new_state k = (case ns_attributes new_state k of None \<Rightarrow> 0 | Some v \<Rightarrow> v)"

text \<open>
  \<open>PlaylistPlayer.async_state_changed\<close>; \<open>now\<close> is what \<open>time.time()\<close> returns. The debug
  call at the top reads \<open>self.state\<close>. The branch of an unsupported state returns right
  after \<open>async_stop\<close>; every other branch falls through to the final assignment.
\<close>

definition PlaylistPlayer_async_state_changed :: "nat \<Rightarrow> State \<Rightarrow> real \<Rightarrow> hass \<Rightarrow> outcome" where
  "PlaylistPlayer_async_state_changed self new_state now h =
     (case state (objects h self) of
        None \<Rightarrow> (Some AttributeError, h)
      | Some st \<Rightarrow>
          if ns_state new_state = STATE_PLAYING then
            (let duration = attr_get new_state ATTR_MEDIA_DURATION;
                 position = attr_get new_state ATTR_MEDIA_POSITION;
                 new_time_left = duration - position
             in set_state self new_state
                  (if st = STATE_IDLE \<or> new_time_left \<noteq> time_left (objects h self)
                   then upd self (\<lambda>p. p\<lparr>start_time := now, time_left := new_time_left,
                                          time_past := 0\<rparr>) h
                   else if st = STATE_PAUSED
                   then upd self (\<lambda>p. p\<lparr>start_time := now\<rparr>) h
                   else h))
          else if ns_state new_state = STATE_PAUSED then
            set_state self new_state
              (if st = STATE_PLAYING
               then upd self (\<lambda>p. p\<lparr>time_past := time_past p + (now - start_time p)\<rparr>) h
               else h)
          else if ns_state new_state = STATE_IDLE then
            (if st = STATE_PLAYING then
               (let h1 = upd self (\<lambda>p. p\<lparr>time_past := time_past p + (now - start_time p)\<rparr>) h
                in and_then
                     (if \<bar>time_past (objects h1 self) - time_left (objects h1 self)\<bar> < 2
                      then PlaylistPlayer_async_media_next_track self h1
                      else PlaylistPlayer_async_stop self h1)
                     (set_state self new_state))
             else if st = STATE_PAUSED then
               and_then (PlaylistPlayer_async_stop self h) (set_state self new_state)
             else set_state self new_state h)
          else if ns_state new_state = STATE_OFF then
            and_then (PlaylistPlayer_async_stop self h) (set_state self new_state)
          else PlaylistPlayer_async_stop self h)"

subsection \<open>The handlers registered by \<open>async_setup\<close>\<close>

text \<open>The body of the loop of \<open>async_play_media\<close> for one entity id.\<close>

definition play_entity :: "call_data \<Rightarrow> string \<Rightarrow> hass \<Rightarrow> outcome" where
  "play_entity cd eid h =
     (case data_playlist_players h eid of
        None \<Rightarrow>
          (let player = next_ref h;
               h1 = h\<lparr>objects := (objects h)(player := PlaylistPlayer_init eid),
                      next_ref := Suc (next_ref h)\<rparr>;
               h2 = h1\<lparr>data_playlist_players := (data_playlist_players h1)(eid \<mapsto> player)\<rparr>
           in PlaylistPlayer_async_play player cd h2)
      | Some player \<Rightarrow> PlaylistPlayer_async_play player cd h)"

fun play_each :: "call_data \<Rightarrow> string list \<Rightarrow> hass \<Rightarrow> outcome" where
  "play_each cd [] h = (None, h)"
| "play_each cd (eid # eids) h = and_then (play_entity cd eid h) (play_each cd eids)"

definition async_play_media :: "call_data \<Rightarrow> hass \<Rightarrow> outcome" where
  "async_play_media cd h =
     (case cd_entity_id cd of
        None \<Rightarrow> (Some (RuntimeError ''Empty entity_id not supported.''), h)
      | Some [] \<Rightarrow> (Some (RuntimeError ''Empty entity_id not supported.''), h)
      | Some eids \<Rightarrow> play_each cd eids h)"

text \<open>
  The event handler. \<open>event.data.get('new_state')\<close> is \<open>None\<close> for the event of a removed
  entity; the method then raises \<open>AttributeError\<close> at \<open>new_state.state\<close> in its first
  statement, before it changes anything.
\<close>

definition async_state_changed :: "event \<Rightarrow> real \<Rightarrow> hass \<Rightarrow> outcome" where
  "async_state_changed ev now h =
     (case ev_entity_id ev of
        None \<Rightarrow> (None, h)
      | Some eid \<Rightarrow>
          (case data_playlist_players h eid of
             None \<Rightarrow> (None, h)
           | Some player \<Rightarrow>
               (case ev_new_state ev of
                  None \<Rightarrow> (Some AttributeError, h)
                | Some new_state \<Rightarrow>
                    PlaylistPlayer_async_state_changed player new_state now h)))"

subsection \<open>Runs of notifications\<close>

text \<open>
  The event bus delivers the state-changed events one after the other; each delivery
  reads the clock once. A track that plays to its end is a notification of the playing
  state at \<open>t1\<close> followed by one of the idle state at \<open>t2\<close>, with \<open>t2 - t1\<close> within two
  seconds of the remaining time (duration minus position) that the playing state reports.
\<close>

fun run_events :: "(event \<times> real) list \<Rightarrow> hass \<Rightarrow> outcome" where
  "run_events [] h = (None, h)"
| "run_events ((ev, now) # evs) h = and_then (async_state_changed ev now h) (run_events evs)"

definition natural_end :: "State \<times> real \<times> State \<times> real \<Rightarrow> bool" where
  "natural_end tr = (case tr of (playing, t1, idle, t2) \<Rightarrow>
     ns_state playing = STATE_PLAYING \<and> ns_state idle = STATE_IDLE \<and>
     \<bar>(t2 - t1) - (attr_get playing ATTR_MEDIA_DURATION - attr_get playing ATTR_MEDIA_POSITION)\<bar> < 2)"

definition track_events :: "string \<Rightarrow> State \<times> real \<times> State \<times> real \<Rightarrow> (event \<times> real) list" where
  "track_events eid tr = (case tr of (playing, t1, idle, t2) \<Rightarrow>
     [(\<lparr>ev_entity_id = Some eid, ev_new_state = Some playing\<rparr>, t1),
      (\<lparr>ev_entity_id = Some eid, ev_new_state = Some idle\<rparr>, t2)])"

subsection \<open>Predicates of the statements\<close>

text \<open>
  The invariant of the dictionary: every entry leads to an allocated object that carries
  the entry's key as its \<open>entity_id\<close>. Entries are only made by \<open>async_play_media\<close>, for an
  object it has just built with that key, so different keys lead to different objects.
\<close>

definition registry_ok :: "hass \<Rightarrow> bool" where
  "registry_ok h \<longleftrightarrow>
     (\<forall>eid r. data_playlist_players h eid = Some r \<longrightarrow>
        r < next_ref h \<and> entity_id (objects h r) = Some eid)"

text \<open>The four state strings that \<open>async_state_changed\<close> has a branch for.\<close>

definition recognized :: "string \<Rightarrow> bool" where
  "recognized k \<longleftrightarrow> k = STATE_PLAYING \<or> k = STATE_PAUSED \<or> k = STATE_IDLE \<or> k = STATE_OFF"

subsection \<open>Example states\<close>

text \<open>
  Two entities under playlist control. The television's player is paused thirty seconds
  into a track of a hundred seconds, with one more item pending.
\<close>

definition ex_player :: PlaylistPlayer where
  "ex_player = \<lparr>entity_id = Some ''media_player.tv'', start_time = 1000, time_left = 100,
     time_past = 30,
     data = Some \<lparr>sd_entity_id = Some ''media_player.tv'', sd_media_content_id = ''a'',
                  sd_other = []\<rparr>,
     media_ids = Some [''b''], state = Some STATE_PAUSED\<rparr>"

definition ex_hass :: hass where
  "ex_hass = \<lparr>objects = (\<lambda>_. ex_player)(1 := ex_player\<lparr>entity_id := Some ''media_player.kodi''\<rparr>),
     next_ref = 2,
     data_playlist_players = [''media_player.tv'' \<mapsto> 0, ''media_player.kodi'' \<mapsto> 1],
     jobs = []\<rparr>"

definition ex_playing :: State where
  "ex_playing = \<lparr>ns_state = STATE_PLAYING,
     ns_attributes = [ATTR_MEDIA_DURATION \<mapsto> 100, ATTR_MEDIA_POSITION \<mapsto> 30]\<rparr>"

definition ex_idle :: State where
  "ex_idle = \<lparr>ns_state = STATE_IDLE, ns_attributes = Map.empty\<rparr>"

definition ex_off :: State where
  "ex_off = \<lparr>ns_state = STATE_OFF, ns_attributes = Map.empty\<rparr>"

definition ex_cd :: call_data where
  "ex_cd = \<lparr>cd_entity_id = Some [''media_player.tv''], cd_media_content_id = ''a,b'',
     cd_other = [(''media_content_type'', ''video'')]\<rparr>"

text \<open>Two tracks that report seventy seconds left and end after 70.5 and 71 seconds.\<close>

definition ex_tracks :: "(State \<times> real \<times> State \<times> real) list" where
  "ex_tracks = [(ex_playing, 0, ex_idle, 70.5), (ex_playing, 100, ex_idle, 171)]"

text \<open>
  The television's player after its state was idle and a playing notification with
  duration 100 and position 0 arrived at time 1000.
\<close>

definition ex_started :: hass where
  "ex_started = snd (PlaylistPlayer_async_state_changed 0
     \<lparr>ns_state = STATE_PLAYING,
      ns_attributes = [ATTR_MEDIA_DURATION \<mapsto> 100, ATTR_MEDIA_POSITION \<mapsto> 0]\<rparr> 1000
     (upd 0 (\<lambda>p. p\<lparr>state := Some STATE_IDLE\<rparr>) ex_hass))"

section \<open>Facts about the model\<close>

subsection \<open>Field access, constants, sequencing\<close>

lemma upd_simps:
  "objects (upd r f h) = (objects h)(r := f (objects h r))"
  "data_playlist_players (upd r f h) = data_playlist_players h"
  "jobs (upd r f h) = jobs h"
  "next_ref (upd r f h) = next_ref h"
  by (simp_all add: upd_def)

lemma STATE_distinct:
  "STATE_IDLE \<noteq> STATE_PLAYING" "STATE_IDLE \<noteq> STATE_PAUSED" "STATE_IDLE \<noteq> STATE_OFF"
  "STATE_PLAYING \<noteq> STATE_IDLE" "STATE_PLAYING \<noteq> STATE_PAUSED" "STATE_PLAYING \<noteq> STATE_OFF"
  "STATE_PAUSED \<noteq> STATE_IDLE" "STATE_PAUSED \<noteq> STATE_PLAYING" "STATE_PAUSED \<noteq> STATE_OFF"
  "STATE_OFF \<noteq> STATE_IDLE" "STATE_OFF \<noteq> STATE_PLAYING" "STATE_OFF \<noteq> STATE_PAUSED"
  by (simp_all add: STATE_IDLE_def STATE_PLAYING_def STATE_PAUSED_def STATE_OFF_def)

lemma ATTR_distinct: "ATTR_MEDIA_DURATION \<noteq> ATTR_MEDIA_POSITION" "ATTR_MEDIA_POSITION \<noteq> ATTR_MEDIA_DURATION"
  by (simp_all add: ATTR_MEDIA_DURATION_def ATTR_MEDIA_POSITION_def)

lemma and_then_simps:
  "and_then (None, h) k = k h"
  "and_then (Some e, h) k = (Some e, h)"
  by (simp_all add: and_then_def)

lemma and_then_set_state:
  "state (objects (snd res) self) = st \<Longrightarrow>
   state (objects (snd (and_then res (set_state self new_state))) self)
     = (if fst res = None then Some (ns_state new_state) else st)"
  by (cases res) (auto simp: and_then_def set_state_def upd_simps)

lemma and_then_fst:
  "fst (and_then res (set_state self new_state)) = fst res"
  by (cases res) (auto simp: and_then_def set_state_def split: option.splits)

lemma split_not_Nil: "split c s \<noteq> []"
  by (induction s) (simp_all add: Let_def)

lemma run_events_append:
  "run_events (xs @ ys) h = and_then (run_events xs h) (run_events ys)"
proof (induction xs arbitrary: h)
  case Nil
  show ?case by (simp add: and_then_simps)
next
  case (Cons x xs)
  obtain ev now where x: "x = (ev, now)" by (cases x)
  show ?case
  proof (cases "async_state_changed ev now h")
    case (Pair err h1)
    then show ?thesis using Cons.IH [of h1] x
      by (cases err) (simp_all add: and_then_simps)
  qed
qed

subsection \<open>The methods\<close>

lemma stop_registered:
  assumes "entity_id (objects h self) = Some eid" and "data_playlist_players h eid = Some r"
  shows "PlaylistPlayer_async_stop self h =
     (None, upd self (\<lambda>p. p\<lparr>entity_id := None\<rparr>)
              (h\<lparr>data_playlist_players := (data_playlist_players h)(eid := None)\<rparr>))"
  using assms by (simp add: PlaylistPlayer_async_stop_def)

lemma stop_state:
  "state (objects (snd (PlaylistPlayer_async_stop self h)) self) = state (objects h self)"
  by (simp add: PlaylistPlayer_async_stop_def upd_simps split: option.splits)

lemma next_track_state:
  "state (objects (snd (PlaylistPlayer_async_media_next_track self h)) self) = state (objects h self)"
  by (simp add: PlaylistPlayer_async_media_next_track_def stop_state upd_simps Let_def
      split: option.splits list.splits)

lemma play_props:
  assumes "split CHR '','' (cd_media_content_id cd) = m # ms"
  shows "\<exists>h'. PlaylistPlayer_async_play r cd h = (None, h')
     \<and> jobs h' = jobs h @ [\<lparr>sd_entity_id = entity_id (objects h r),
                             sd_media_content_id = m, sd_other = cd_other cd\<rparr>]
     \<and> data_playlist_players h' = data_playlist_players h
     \<and> next_ref h' = next_ref h
     \<and> (\<forall>r'. r' \<noteq> r \<longrightarrow> objects h' r' = objects h r')
     \<and> entity_id (objects h' r) = entity_id (objects h r)
     \<and> start_time (objects h' r) = start_time (objects h r)
     \<and> time_left (objects h' r) = time_left (objects h r)
     \<and> time_past (objects h' r) = time_past (objects h r)
     \<and> data (objects h' r) = Some \<lparr>sd_entity_id = entity_id (objects h r),
                             sd_media_content_id = m, sd_other = cd_other cd\<rparr>
     \<and> media_ids (objects h' r) = Some ms
     \<and> state (objects h' r) = Some STATE_IDLE"
  using assms
  by (simp add: PlaylistPlayer_async_play_def PlaylistPlayer_async_media_next_track_def
        Let_def upd_simps)

lemma play_entity_state:
  assumes reg: "\<forall>r. data_playlist_players h eid = Some r \<longrightarrow> entity_id (objects h r) = Some eid"
    and ids: "split CHR '','' (cd_media_content_id cd) = m # ms"
  shows "\<exists>h' r. play_entity cd eid h = (None, h')
     \<and> jobs h' = jobs h @ [\<lparr>sd_entity_id = Some eid, sd_media_content_id = m,
                            sd_other = cd_other cd\<rparr>]
     \<and> data_playlist_players h' eid = Some r
     \<and> entity_id (objects h' r) = Some eid
     \<and> state (objects h' r) = Some STATE_IDLE
     \<and> media_ids (objects h' r) = Some ms
     \<and> data (objects h' r) = Some \<lparr>sd_entity_id = Some eid, sd_media_content_id = m,
                                    sd_other = cd_other cd\<rparr>"
proof (cases "data_playlist_players h eid")
  case None
  define h2 where "h2 = h\<lparr>objects := (objects h)(next_ref h := PlaylistPlayer_init eid),
                next_ref := Suc (next_ref h),
                data_playlist_players := (data_playlist_players h)(eid \<mapsto> next_ref h)\<rparr>"
  have pe: "play_entity cd eid h = PlaylistPlayer_async_play (next_ref h) cd h2"
    using None by (simp add: play_entity_def Let_def h2_def)
  have f: "jobs h2 = jobs h" "data_playlist_players h2 eid = Some (next_ref h)"
    "entity_id (objects h2 (next_ref h)) = Some eid"
    by (simp_all add: h2_def PlaylistPlayer_init_def)
  from play_props [OF ids, of "next_ref h" h2] obtain h' where
    "PlaylistPlayer_async_play (next_ref h) cd h2 = (None, h')"
    "jobs h' = jobs h2 @ [\<lparr>sd_entity_id = entity_id (objects h2 (next_ref h)),
                             sd_media_content_id = m, sd_other = cd_other cd\<rparr>]"
    "data_playlist_players h' = data_playlist_players h2"
    "entity_id (objects h' (next_ref h)) = entity_id (objects h2 (next_ref h))"
    "data (objects h' (next_ref h)) = Some \<lparr>sd_entity_id = entity_id (objects h2 (next_ref h)),
                             sd_media_content_id = m, sd_other = cd_other cd\<rparr>"
    "media_ids (objects h' (next_ref h)) = Some ms"
    "state (objects h' (next_ref h)) = Some STATE_IDLE"
    by (elim exE conjE)
  then show ?thesis using pe f by simp
next
  case (Some r)
  with reg have e: "entity_id (objects h r) = Some eid" by simp
  have pe: "play_entity cd eid h = PlaylistPlayer_async_play r cd h"
    using Some by (simp add: play_entity_def)
  from play_props [OF ids, of r h] obtain h' where
    "PlaylistPlayer_async_play r cd h = (None, h')"
    "jobs h' = jobs h @ [\<lparr>sd_entity_id = entity_id (objects h r),
                             sd_media_content_id = m, sd_other = cd_other cd\<rparr>]"
    "data_playlist_players h' = data_playlist_players h"
    "entity_id (objects h' r) = entity_id (objects h r)"
    "data (objects h' r) = Some \<lparr>sd_entity_id = entity_id (objects h r),
                             sd_media_content_id = m, sd_other = cd_other cd\<rparr>"
    "media_ids (objects h' r) = Some ms"
    "state (objects h' r) = Some STATE_IDLE"
    by (elim exE conjE)
  then show ?thesis using pe e Some by simp
qed

lemma play_each_single: "play_each cd [eid] h = play_entity cd eid h"
  by (cases "play_entity cd eid h") (auto simp: and_then_def split: option.splits)

lemma play_media_single:
  "async_play_media (cd\<lparr>cd_entity_id := Some [eid]\<rparr>) h
     = play_entity (cd\<lparr>cd_entity_id := Some [eid]\<rparr>) eid h"
  by (simp add: async_play_media_def play_each_single del: play_each.simps)

subsection \<open>One track played to its end\<close>

lemma track_next:
  assumes reg: "data_playlist_players h eid = Some r"
    and st: "state (objects h r) = Some STATE_IDLE"
    and ms: "media_ids (objects h r) = Some (m # ms)"
    and d: "data (objects h r) = Some d"
    and nat: "natural_end tr"
  shows "\<exists>h'. run_events (track_events eid tr) h = (None, h')
      \<and> jobs h' = jobs h @ [d\<lparr>sd_media_content_id := m\<rparr>]
      \<and> data_playlist_players h' = data_playlist_players h
      \<and> entity_id (objects h' r) = entity_id (objects h r)
      \<and> state (objects h' r) = Some STATE_IDLE
      \<and> media_ids (objects h' r) = Some ms
      \<and> data (objects h' r) = Some (d\<lparr>sd_media_content_id := m\<rparr>)"
proof -
  obtain playing t1 idle t2 where tr: "tr = (playing, t1, idle, t2)" by (cases tr)
  from nat tr have k: "ns_state playing = STATE_PLAYING" "ns_state idle = STATE_IDLE"
    and tol: "\<bar>(t2 - t1) - (attr_get playing ATTR_MEDIA_DURATION - attr_get playing ATTR_MEDIA_POSITION)\<bar> < 2"
    by (simp_all add: natural_end_def)
  let ?h1 = "upd r (\<lambda>p. p\<lparr>state := Some STATE_PLAYING\<rparr>)
      (upd r (\<lambda>p. p\<lparr>start_time := t1,
          time_left := attr_get playing ATTR_MEDIA_DURATION - attr_get playing ATTR_MEDIA_POSITION,
          time_past := 0\<rparr>) h)"
  have s1: "PlaylistPlayer_async_state_changed r playing t1 h = (None, ?h1)"
    using st k by (simp add: PlaylistPlayer_async_state_changed_def set_state_def Let_def)
  have tol1: "\<bar>time_past (objects ?h1 r) + (t2 - start_time (objects ?h1 r)) - time_left (objects ?h1 r)\<bar> < 2"
    using tol by (simp add: upd_simps)
  have s2: "\<exists>h'. PlaylistPlayer_async_state_changed r idle t2 ?h1 = (None, h')
      \<and> jobs h' = jobs h @ [d\<lparr>sd_media_content_id := m\<rparr>]
      \<and> data_playlist_players h' = data_playlist_players h
      \<and> entity_id (objects h' r) = entity_id (objects h r)
      \<and> state (objects h' r) = Some STATE_IDLE
      \<and> media_ids (objects h' r) = Some ms
      \<and> data (objects h' r) = Some (d\<lparr>sd_media_content_id := m\<rparr>)"
    using tol ms d k
    by (simp add: PlaylistPlayer_async_state_changed_def PlaylistPlayer_async_media_next_track_def
        set_state_def Let_def upd_simps STATE_distinct and_then_simps)
  then obtain h' where h': "PlaylistPlayer_async_state_changed r idle t2 ?h1 = (None, h')"
      "jobs h' = jobs h @ [d\<lparr>sd_media_content_id := m\<rparr>]"
      "data_playlist_players h' = data_playlist_players h"
      "entity_id (objects h' r) = entity_id (objects h r)"
      "state (objects h' r) = Some STATE_IDLE"
      "media_ids (objects h' r) = Some ms"
      "data (objects h' r) = Some (d\<lparr>sd_media_content_id := m\<rparr>)" by blast
  have "run_events (track_events eid tr) h = (None, h')"
    using reg s1 h'(1)
    by (simp add: tr track_events_def async_state_changed_def and_then_simps upd_simps)
  with h' show ?thesis by blast
qed

lemma track_last:
  assumes reg: "data_playlist_players h eid = Some r"
    and eid: "entity_id (objects h r) = Some eid"
    and st: "state (objects h r) = Some STATE_IDLE"
    and ms: "media_ids (objects h r) = Some []"
    and nat: "natural_end tr"
  shows "\<exists>h'. run_events (track_events eid tr) h = (None, h')
      \<and> jobs h' = jobs h
      \<and> data_playlist_players h' = (data_playlist_players h)(eid := None)"
proof -
  obtain playing t1 idle t2 where tr: "tr = (playing, t1, idle, t2)" by (cases tr)
  from nat tr have k: "ns_state playing = STATE_PLAYING" "ns_state idle = STATE_IDLE"
    and tol: "\<bar>(t2 - t1) - (attr_get playing ATTR_MEDIA_DURATION - attr_get playing ATTR_MEDIA_POSITION)\<bar> < 2"
    by (simp_all add: natural_end_def)
  let ?h1 = "upd r (\<lambda>p. p\<lparr>state := Some STATE_PLAYING\<rparr>)
      (upd r (\<lambda>p. p\<lparr>start_time := t1,
          time_left := attr_get playing ATTR_MEDIA_DURATION - attr_get playing ATTR_MEDIA_POSITION,
          time_past := 0\<rparr>) h)"
  have s1: "PlaylistPlayer_async_state_changed r playing t1 h = (None, ?h1)"
    using st k by (simp add: PlaylistPlayer_async_state_changed_def set_state_def Let_def)
  have s2: "\<exists>h'. PlaylistPlayer_async_state_changed r idle t2 ?h1 = (None, h')
      \<and> jobs h' = jobs h
      \<and> data_playlist_players h' = (data_playlist_players h)(eid := None)"
    using tol ms k reg eid
    by (simp add: PlaylistPlayer_async_state_changed_def PlaylistPlayer_async_media_next_track_def
        PlaylistPlayer_async_stop_def
        set_state_def Let_def upd_simps STATE_distinct and_then_simps)
  then obtain h' where h': "PlaylistPlayer_async_state_changed r idle t2 ?h1 = (None, h')"
      "jobs h' = jobs h"
      "data_playlist_players h' = (data_playlist_players h)(eid := None)" by blast
  have "run_events (track_events eid tr) h = (None, h')"
    using reg s1 h'(1)
    by (simp add: tr track_events_def async_state_changed_def and_then_simps upd_simps)
  with h' show ?thesis by blast
qed

lemma run_tracks:
  assumes "data_playlist_players h eid = Some r"
    and "entity_id (objects h r) = Some eid"
    and "state (objects h r) = Some STATE_IDLE"
    and "media_ids (objects h r) = Some ms"
    and "data (objects h r) = Some d"
    and "length trs \<le> Suc (length ms)"
    and "\<forall>tr \<in> set trs. natural_end tr"
  shows "\<exists>h'. run_events (concat (map (track_events eid) trs)) h = (None, h')
      \<and> jobs h' = jobs h @ map (\<lambda>m. d\<lparr>sd_media_content_id := m\<rparr>) (take (length trs) ms)
      \<and> (data_playlist_players h' eid = None \<longleftrightarrow> length trs = Suc (length ms))"
  using assms
proof (induction trs arbitrary: h ms d)
  case Nil
  then show ?case by simp
next
  case (Cons tr trs)
  have nat: "natural_end tr" using Cons.prems(7) by simp
  show ?case
  proof (cases ms)
    case Nil
    with Cons.prems(6) have trs: "trs = []" by simp
    from track_last [OF Cons.prems(1) Cons.prems(2) Cons.prems(3) _ nat] Cons.prems(4) Nil
    obtain h' where "run_events (track_events eid tr) h = (None, h')" "jobs h' = jobs h"
      "data_playlist_players h' = (data_playlist_players h)(eid := None)" by blast
    then show ?thesis using trs Nil by simp
  next
    case (Cons m ms')
    from track_next [OF Cons.prems(1) Cons.prems(3) _ Cons.prems(5) nat, of m ms'] Cons.prems(4) Cons
    obtain h1 where h1: "run_events (track_events eid tr) h = (None, h1)"
      "jobs h1 = jobs h @ [d\<lparr>sd_media_content_id := m\<rparr>]"
      "data_playlist_players h1 = data_playlist_players h"
      "entity_id (objects h1 r) = entity_id (objects h r)"
      "state (objects h1 r) = Some STATE_IDLE"
      "media_ids (objects h1 r) = Some ms'"
      "data (objects h1 r) = Some (d\<lparr>sd_media_content_id := m\<rparr>)" by blast
    have len: "length trs \<le> Suc (length ms')" using Cons.prems(6) Cons by simp
    have all: "\<forall>tr \<in> set trs. natural_end tr" using Cons.prems(7) by simp
    from Cons.IH [of h1 ms' "d\<lparr>sd_media_content_id := m\<rparr>"] h1 Cons.prems(1,2) len all
    obtain h' where h': "run_events (concat (map (track_events eid) trs)) h1 = (None, h')"
      "jobs h' = jobs h1 @ map (\<lambda>x. d\<lparr>sd_media_content_id := m, sd_media_content_id := x\<rparr>) (take (length trs) ms')"
      "(data_playlist_players h' eid = None) = (length trs = Suc (length ms'))"
      by auto
    have "run_events (concat (map (track_events eid) (tr # trs))) h = (None, h')"
      using h1(1) h'(1) by (simp add: run_events_append and_then_simps)
    then show ?thesis using h' h1(2) Cons by simp
  qed
qed

subsection \<open>The invariant of the dictionary is kept by both handlers\<close>

lemma registry_ok_upd:
  assumes "registry_ok h" and "entity_id (f (objects h self)) = entity_id (objects h self)"
  shows "registry_ok (upd self f h)"
  using assms by (auto simp: registry_ok_def upd_simps)

lemma registry_ok_jobs: "registry_ok (h\<lparr>jobs := js\<rparr>) = registry_ok h"
  by (simp add: registry_ok_def)

lemma registry_ok_stop:
  assumes "registry_ok h"
  shows "registry_ok (snd (PlaylistPlayer_async_stop self h))"
proof (cases "entity_id (objects h self)")
  case None
  then show ?thesis using assms by (simp add: PlaylistPlayer_async_stop_def)
next
  case (Some eid)
  show ?thesis
  proof (cases "data_playlist_players h eid")
    case None
    then show ?thesis using assms Some by (simp add: PlaylistPlayer_async_stop_def)
  next
    case (Some r)
    have "registry_ok (upd self (\<lambda>p. p\<lparr>entity_id := None\<rparr>)
              (h\<lparr>data_playlist_players := (data_playlist_players h)(eid := None)\<rparr>))"
      using assms \<open>entity_id (objects h self) = Some eid\<close>
      by (auto simp: registry_ok_def upd_simps)
    then show ?thesis using Some \<open>entity_id (objects h self) = Some eid\<close>
      by (simp add: PlaylistPlayer_async_stop_def)
  qed
qed

lemma registry_ok_next_track:
  assumes "registry_ok h"
  shows "registry_ok (snd (PlaylistPlayer_async_media_next_track self h))"
  using assms
  by (auto simp: PlaylistPlayer_async_media_next_track_def Let_def registry_ok_stop
      registry_ok_jobs registry_ok_upd upd_simps split: option.splits list.splits)

lemma registry_ok_play:
  assumes "registry_ok h"
  shows "registry_ok (snd (PlaylistPlayer_async_play self cd h))"
  using assms
  by (simp add: PlaylistPlayer_async_play_def Let_def registry_ok_next_track registry_ok_upd
      upd_simps)

lemma registry_ok_and_then:
  assumes "registry_ok (snd res)" and "\<And>h. registry_ok h \<Longrightarrow> registry_ok (snd (k h))"
  shows "registry_ok (snd (and_then res k))"
  using assms by (cases res) (auto simp: and_then_def split: option.splits)

lemma registry_ok_set_state:
  "registry_ok h \<Longrightarrow> registry_ok (snd (set_state self new_state h))"
  by (simp add: set_state_def registry_ok_upd)

lemma registry_ok_method:
  assumes "registry_ok h"
  shows "registry_ok (snd (PlaylistPlayer_async_state_changed self new_state now h))"
  using assms
  by (auto simp: PlaylistPlayer_async_state_changed_def Let_def registry_ok_set_state
      registry_ok_upd registry_ok_stop registry_ok_next_track
      intro!: registry_ok_and_then split: option.splits)

lemma registry_ok_state_changed:
  assumes "registry_ok h"
  shows "registry_ok (snd (async_state_changed ev now h))"
  using assms
  by (auto simp: async_state_changed_def registry_ok_method split: option.splits)

lemma registry_ok_play_entity:
  assumes "registry_ok h"
  shows "registry_ok (snd (play_entity cd eid h))"
proof (cases "data_playlist_players h eid")
  case None
  have "registry_ok (h\<lparr>objects := (objects h)(next_ref h := PlaylistPlayer_init eid),
                next_ref := Suc (next_ref h),
                data_playlist_players := (data_playlist_players h)(eid \<mapsto> next_ref h)\<rparr>)"
    using assms by (auto simp: registry_ok_def PlaylistPlayer_init_def less_Suc_eq)
  then show ?thesis using None
    by (simp add: play_entity_def Let_def registry_ok_play)
next
  case (Some r)
  then show ?thesis using assms by (simp add: play_entity_def registry_ok_play)
qed

lemma registry_ok_play_each:
  "registry_ok h \<Longrightarrow> registry_ok (snd (play_each cd eids h))"
proof (induction eids arbitrary: h)
  case Nil
  then show ?case by simp
next
  case (Cons eid eids)
  show ?case
    using Cons.prems Cons.IH
    by (simp add: registry_ok_and_then registry_ok_play_entity)
qed

lemma registry_ok_play_media:
  "registry_ok h \<Longrightarrow> registry_ok (snd (async_play_media cd h))"
  by (auto simp: async_play_media_def registry_ok_play_each simp del: play_each.simps
      split: option.splits list.splits)

lemma registry_ok_run_events:
  "registry_ok h \<Longrightarrow> registry_ok (snd (run_events evs h))"
proof (induction evs arbitrary: h)
  case Nil
  then show ?case by simp
next
  case (Cons e evs)
  obtain ev now where e: "e = (ev, now)" by (cases e)
  show ?case
    using Cons.prems Cons.IH
    by (simp add: e registry_ok_and_then registry_ok_state_changed)
qed

text \<open>It holds when nothing is under playlist control yet, and in the example state.\<close>

lemma registry_ok_empty:
  "registry_ok \<lparr>objects = os, next_ref = n, data_playlist_players = Map.empty, jobs = js\<rparr>"
  by (simp add: registry_ok_def)

lemma registry_ok_ex_hass: "registry_ok ex_hass"
  by (simp add: registry_ok_def ex_hass_def ex_player_def)

section \<open>The claims\<close>

text \<open>
  Claim C1. A play request for one entity, followed by as many tracks played to their end
  as the content id has items (each a playing notification and then an idle notification
  whose elapsed time is within two seconds of the expected remaining time), issues one
  play command per media id, in the order of the list, and after the last item the
  entity's entry is gone from the dictionary. The statement covers every prefix of the
  run: after \<open>k\<close> finished tracks the commands issued are those for the first \<open>k + 1\<close>
  ids, and the entry is gone exactly when \<open>k\<close> is the number of ids. The request
  arrives in any state the handlers can produce (\<open>registry_ok\<close>), whether or not the
  entity is under playlist control already.
\<close>

theorem play_all_tracks_in_order:
  assumes ok: "registry_ok h"
    and len: "length trs \<le> length (split CHR '','' (cd_media_content_id cd))"
    and ends: "list_all natural_end trs"
  shows "\<exists>h1 h2.
      async_play_media (cd\<lparr>cd_entity_id := Some [eid]\<rparr>) h = (None, h1)
    \<and> run_events (concat (map (track_events eid) trs)) h1 = (None, h2)
    \<and> jobs h2 = jobs h @ map (\<lambda>m. \<lparr>sd_entity_id = Some eid, sd_media_content_id = m,
                                     sd_other = cd_other cd\<rparr>)
                            (take (Suc (length trs)) (split CHR '','' (cd_media_content_id cd)))
    \<and> (data_playlist_players h2 eid = None
         \<longleftrightarrow> length trs = length (split CHR '','' (cd_media_content_id cd)))"
proof -
  have reg: "\<forall>r. data_playlist_players h eid = Some r \<longrightarrow> entity_id (objects h r) = Some eid"
    using ok by (simp add: registry_ok_def)
  have nat: "\<forall>tr \<in> set trs. natural_end tr"
    using ends by (simp add: list_all_iff)
  define cd1 where "cd1 = cd\<lparr>cd_entity_id := Some [eid]\<rparr>"
  define mk where "mk = (\<lambda>m. \<lparr>sd_entity_id = Some eid, sd_media_content_id = m, sd_other = cd_other cd\<rparr>)"
  have cd1: "cd_entity_id cd1 = Some [eid]" "cd_media_content_id cd1 = cd_media_content_id cd"
    "cd_other cd1 = cd_other cd" by (simp_all add: cd1_def)
  obtain m ms where ids: "split CHR '','' (cd_media_content_id cd) = m # ms"
    using split_not_Nil [of "CHR '',''" "cd_media_content_id cd"]
    by (cases "split CHR '','' (cd_media_content_id cd)") auto
  have ids': "split CHR '','' (cd_media_content_id cd1) = m # ms" using ids cd1 by simp
  from play_entity_state [OF reg ids']
  obtain h1 r where h1: "play_entity cd1 eid h = (None, h1)"
    "jobs h1 = jobs h @ [mk m]"
    "data_playlist_players h1 eid = Some r"
    "entity_id (objects h1 r) = Some eid"
    "state (objects h1 r) = Some STATE_IDLE"
    "media_ids (objects h1 r) = Some ms"
    "data (objects h1 r) = Some (mk m)"
    unfolding cd1(3) mk_def by (elim exE conjE)
  have p: "async_play_media cd1 h = (None, h1)"
    using h1(1) cd1(1) by (simp add: async_play_media_def and_then_simps)
  have len': "length trs \<le> Suc (length ms)" using len ids by simp
  from run_tracks [OF h1(3) h1(4) h1(5) h1(6) h1(7) len' nat]
  obtain h2 where h2: "run_events (concat (map (track_events eid) trs)) h1 = (None, h2)"
    "jobs h2 = jobs h1 @ map (\<lambda>x. (mk m)\<lparr>sd_media_content_id := x\<rparr>) (take (length trs) ms)"
    "(data_playlist_players h2 eid = None) = (length trs = Suc (length ms))"
    by (elim exE conjE)
  have mk: "(\<lambda>x. (mk m)\<lparr>sd_media_content_id := x\<rparr>) = mk" by (simp add: mk_def)
  have "jobs h2 = jobs h @ map mk (take (Suc (length trs)) (m # ms))"
    using h2(2) h1(2) by (simp add: mk)
  with p h2(1) h2(3) show ?thesis
    unfolding ids cd1_def mk_def by simp
qed

text \<open>
  The theorem at the example state: the television is already under playlist control,
  the request is for the items \<open>a\<close> and \<open>b\<close>, and both tracks report seventy seconds left
  and end after 70.5 and 71 seconds.
\<close>

theorem play_all_tracks_in_order_witness:
  "length ex_tracks \<le> length (split CHR '','' (cd_media_content_id ex_cd))
 \<and> list_all natural_end ex_tracks
 \<and> (\<exists>h1 h2.
      async_play_media (ex_cd\<lparr>cd_entity_id := Some [''media_player.tv'']\<rparr>) ex_hass = (None, h1)
    \<and> run_events (concat (map (track_events ''media_player.tv'') ex_tracks)) h1 = (None, h2)
    \<and> jobs h2 = jobs ex_hass @
         [\<lparr>sd_entity_id = Some ''media_player.tv'', sd_media_content_id = ''a'',
           sd_other = cd_other ex_cd\<rparr>,
          \<lparr>sd_entity_id = Some ''media_player.tv'', sd_media_content_id = ''b'',
           sd_other = cd_other ex_cd\<rparr>]
    \<and> data_playlist_players h2 ''media_player.tv'' = None)"
proof -
  have ids: "split CHR '','' (cd_media_content_id ex_cd) = [''a'', ''b'']"
    by (simp add: ex_cd_def)
  have two: "length ex_tracks = 2" by (simp add: ex_tracks_def)
  have len: "length ex_tracks \<le> length (split CHR '','' (cd_media_content_id ex_cd))"
    by (simp add: ids two)
  have ends: "list_all natural_end ex_tracks"
    by (simp add: ex_tracks_def natural_end_def ex_playing_def ex_idle_def attr_get_def
        ATTR_distinct)
  from play_all_tracks_in_order [OF registry_ok_ex_hass len ends]
  have "\<exists>h1 h2.
      async_play_media (ex_cd\<lparr>cd_entity_id := Some [''media_player.tv'']\<rparr>) ex_hass = (None, h1)
    \<and> run_events (concat (map (track_events ''media_player.tv'') ex_tracks)) h1 = (None, h2)
    \<and> jobs h2 = jobs ex_hass @
         [\<lparr>sd_entity_id = Some ''media_player.tv'', sd_media_content_id = ''a'',
           sd_other = cd_other ex_cd\<rparr>,
          \<lparr>sd_entity_id = Some ''media_player.tv'', sd_media_content_id = ''b'',
           sd_other = cd_other ex_cd\<rparr>]
    \<and> data_playlist_players h2 ''media_player.tv'' = None"
    unfolding ids two by simp
  with len ends show ?thesis by blast
qed

text \<open>
  Claim C2. On a transition from playing to idle the method first adds
  \<open>now - start_time\<close> to \<open>time_past\<close>; with the sum in place it calls
  \<open>async_media_next_track\<close> when \<open>abs(time_past - time_left) < 2\<close> and \<open>async_stop\<close>
  otherwise, and in the second case the entry of a registered entity is removed. With
  a hundred seconds expected (duration 100, position 0) and nothing accumulated, an
  elapsed time of 100.5 seconds advances and one of 50 seconds stops.
\<close>

theorem playing_to_idle_classifies:
  assumes "state (objects h self) = Some STATE_PLAYING" and "ns_state new_state = STATE_IDLE"
  shows "let h1 = upd self (\<lambda>p. p\<lparr>time_past := time_past p + (now - start_time p)\<rparr>) h in
      (\<bar>time_past (objects h1 self) - time_left (objects h1 self)\<bar> < 2 \<longrightarrow>
         PlaylistPlayer_async_state_changed self new_state now h
           = and_then (PlaylistPlayer_async_media_next_track self h1) (set_state self new_state))
    \<and> (\<not> \<bar>time_past (objects h1 self) - time_left (objects h1 self)\<bar> < 2 \<longrightarrow>
         PlaylistPlayer_async_state_changed self new_state now h
           = and_then (PlaylistPlayer_async_stop self h1) (set_state self new_state)
         \<and> (\<forall>eid r. entity_id (objects h self) = Some eid \<and> data_playlist_players h eid = Some r \<longrightarrow>
              fst (PlaylistPlayer_async_state_changed self new_state now h) = None
            \<and> data_playlist_players (snd (PlaylistPlayer_async_state_changed self new_state now h))
                = (data_playlist_players h)(eid := None)))
    \<and> time_past (objects h1 self) = time_past (objects h self) + (now - start_time (objects h self))
    \<and> time_left (objects h1 self) = time_left (objects h self)
    \<and> (time_left (objects h self) = 100 - 0 \<and> time_past (objects h self) = 0
         \<and> now - start_time (objects h self) = 100.5 \<longrightarrow>
         PlaylistPlayer_async_state_changed self new_state now h
           = and_then (PlaylistPlayer_async_media_next_track self h1) (set_state self new_state))
    \<and> (time_left (objects h self) = 100 - 0 \<and> time_past (objects h self) = 0
         \<and> now - start_time (objects h self) = 50 \<longrightarrow>
         PlaylistPlayer_async_state_changed self new_state now h
           = and_then (PlaylistPlayer_async_stop self h1) (set_state self new_state))"
proof -
  define h1 where "h1 = upd self (\<lambda>p. p\<lparr>time_past := time_past p + (now - start_time p)\<rparr>) h"
  have f: "time_past (objects h1 self) = time_past (objects h self) + (now - start_time (objects h self))"
    "time_left (objects h1 self) = time_left (objects h self)"
    "entity_id (objects h1 self) = entity_id (objects h self)"
    "data_playlist_players h1 = data_playlist_players h"
    by (simp_all add: h1_def upd_simps)
  have eq: "PlaylistPlayer_async_state_changed self new_state now h =
      and_then (if \<bar>time_past (objects h1 self) - time_left (objects h1 self)\<bar> < 2
                then PlaylistPlayer_async_media_next_track self h1
                else PlaylistPlayer_async_stop self h1) (set_state self new_state)"
    using assms
    by (simp add: PlaylistPlayer_async_state_changed_def STATE_distinct Let_def h1_def)
  have rm: "fst (PlaylistPlayer_async_state_changed self new_state now h) = None
            \<and> data_playlist_players (snd (PlaylistPlayer_async_state_changed self new_state now h))
                = (data_playlist_players h)(eid := None)"
    if "\<not> \<bar>time_past (objects h1 self) - time_left (objects h1 self)\<bar> < 2"
      "entity_id (objects h self) = Some eid" "data_playlist_players h eid = Some r" for eid r
    using that f(3,4) eq
    by (simp add: stop_registered [of h1 self eid r] and_then_simps set_state_def upd_simps)
  show ?thesis
    unfolding Let_def h1_def [symmetric]
    using eq f(1,2) rm by auto
qed

text \<open>
  The theorem at the example: the track that started at time 1000 with duration 100 and
  position 0 goes idle at 1100.5, and the pending item \<open>b\<close> is sent; it goes idle at
  1050, and the television's entry is removed.
\<close>

theorem playing_to_idle_classifies_witness:
  "state (objects ex_started 0) = Some STATE_PLAYING \<and> ns_state ex_idle = STATE_IDLE
 \<and> PlaylistPlayer_async_state_changed 0 ex_idle 1100.5 ex_started
      = and_then (PlaylistPlayer_async_media_next_track 0
            (upd 0 (\<lambda>p. p\<lparr>time_past := time_past p + (1100.5 - start_time p)\<rparr>) ex_started))
          (set_state 0 ex_idle)
 \<and> PlaylistPlayer_async_state_changed 0 ex_idle 1050 ex_started
      = and_then (PlaylistPlayer_async_stop 0
            (upd 0 (\<lambda>p. p\<lparr>time_past := time_past p + (1050 - start_time p)\<rparr>) ex_started))
          (set_state 0 ex_idle)
 \<and> fst (PlaylistPlayer_async_state_changed 0 ex_idle 1050 ex_started) = None
 \<and> data_playlist_players (snd (PlaylistPlayer_async_state_changed 0 ex_idle 1050 ex_started))
      = (data_playlist_players ex_started)(''media_player.tv'' := None)"
proof -
  have flds: "state (objects ex_started 0) = Some STATE_PLAYING"
    "time_left (objects ex_started 0) = 100 - 0" "time_past (objects ex_started 0) = 0"
    "start_time (objects ex_started 0) = 1000"
    "entity_id (objects ex_started 0) = Some ''media_player.tv''"
    "data_playlist_players ex_started ''media_player.tv'' = Some 0"
    by (simp_all add: ex_started_def PlaylistPlayer_async_state_changed_def set_state_def
        upd_simps ex_hass_def ex_player_def attr_get_def ATTR_distinct Let_def)
  have idle: "ns_state ex_idle = STATE_IDLE" by (simp add: ex_idle_def)
  have e1: "(1100.5::real) - start_time (objects ex_started 0) = 100.5"
    and e2: "(1050::real) - start_time (objects ex_started 0) = 50"
    by (simp_all add: flds(4))
  have far: "\<not> \<bar>time_past (objects (upd 0 (\<lambda>p. p\<lparr>time_past := time_past p + (1050 - start_time p)\<rparr>)
      ex_started) 0) - time_left (objects (upd 0 (\<lambda>p. p\<lparr>time_past := time_past p + (1050 - start_time p)\<rparr>)
      ex_started) 0)\<bar> < 2"
    by (simp add: upd_simps flds)
  from playing_to_idle_classifies [OF flds(1) idle, of "1100.5"]
       playing_to_idle_classifies [OF flds(1) idle, of 1050]
       flds idle e1 e2 far
  show ?thesis
    unfolding Let_def by blast
qed

text \<open>
  Claim C3, as the code has it. On a transition from paused to playing the method sets
  \<open>start_time\<close> to the current time. It keeps \<open>time_past\<close> and \<open>time_left\<close> only when the
  new state's duration minus position equals the stored \<open>time_left\<close>; when it differs
  (the first test of the playing branch, "updated duration, or updated position") the
  transition counts as the start of a track: \<open>time_left\<close> becomes the new difference and
  \<open>time_past\<close> becomes 0.
\<close>

theorem paused_to_playing_resumes:
  assumes "state (objects h self) = Some STATE_PAUSED" and "ns_state new_state = STATE_PLAYING"
  shows "\<exists>h'. PlaylistPlayer_async_state_changed self new_state now h = (None, h')
     \<and> start_time (objects h' self) = now
     \<and> state (objects h' self) = Some STATE_PLAYING
     \<and> (if attr_get new_state ATTR_MEDIA_DURATION - attr_get new_state ATTR_MEDIA_POSITION
             = time_left (objects h self)
         then time_past (objects h' self) = time_past (objects h self)
            \<and> time_left (objects h' self) = time_left (objects h self)
         else time_past (objects h' self) = 0
            \<and> time_left (objects h' self)
                = attr_get new_state ATTR_MEDIA_DURATION - attr_get new_state ATTR_MEDIA_POSITION)"
  using assms
  by (simp add: PlaylistPlayer_async_state_changed_def set_state_def upd_simps STATE_distinct Let_def)

text \<open>
  At the example: the paused player resumes with a state that reports the duration 100
  and no position, which is the stored \<open>time_left\<close>; the thirty seconds stay.
\<close>

theorem paused_to_playing_resumes_witness:
  "state (objects ex_hass 0) = Some STATE_PAUSED \<and>
   ns_state (ex_playing\<lparr>ns_attributes := [ATTR_MEDIA_DURATION \<mapsto> 100]\<rparr>) = STATE_PLAYING \<and>
   (\<exists>h'. PlaylistPlayer_async_state_changed 0
            (ex_playing\<lparr>ns_attributes := [ATTR_MEDIA_DURATION \<mapsto> 100]\<rparr>) 2000 ex_hass = (None, h')
     \<and> start_time (objects h' 0) = 2000 \<and> time_past (objects h' 0) = 30
     \<and> time_left (objects h' 0) = 100)"
proof -
  let ?ns = "ex_playing\<lparr>ns_attributes := [ATTR_MEDIA_DURATION \<mapsto> 100]\<rparr>"
  have a: "state (objects ex_hass 0) = Some STATE_PAUSED"
    by (simp add: ex_hass_def ex_player_def)
  have b: "ns_state ?ns = STATE_PLAYING" by (simp add: ex_playing_def)
  have c: "attr_get ?ns ATTR_MEDIA_DURATION - attr_get ?ns ATTR_MEDIA_POSITION
      = time_left (objects ex_hass 0)"
    by (simp add: attr_get_def ATTR_distinct ex_hass_def ex_player_def)
  have d: "time_past (objects ex_hass 0) = 30" "time_left (objects ex_hass 0) = 100"
    by (simp_all add: ex_hass_def ex_player_def)
  from paused_to_playing_resumes [OF a b, of 2000] c d a b show ?thesis by auto
qed

text \<open>
  The claim as written fails when the new state carries a position: the paused player
  (a hundred seconds expected, thirty accumulated) resumes with duration 100 and
  position 30, and both \<open>time_past\<close> and \<open>time_left\<close> change.
\<close>

theorem paused_to_playing_counterexample:
  "state (objects ex_hass 0) = Some STATE_PAUSED \<and> ns_state ex_playing = STATE_PLAYING \<and>
   time_past (objects (snd (PlaylistPlayer_async_state_changed 0 ex_playing 2000 ex_hass)) 0)
     \<noteq> time_past (objects ex_hass 0) \<and>
   time_left (objects (snd (PlaylistPlayer_async_state_changed 0 ex_playing 2000 ex_hass)) 0)
     \<noteq> time_left (objects ex_hass 0)"
  by (simp add: PlaylistPlayer_async_state_changed_def ex_hass_def ex_player_def ex_playing_def
      set_state_def attr_get_def ATTR_distinct upd_simps STATE_distinct Let_def)

text \<open>
  Claim C4, as the code has it. A play request for an entity that has an entry in the
  dictionary takes the \<open>else\<close> branch of the lookup and calls \<open>async_play\<close> on the object
  that is there: nothing is allocated, the entry stays, and \<open>start_time\<close>, \<open>time_left\<close> and
  \<open>time_past\<close> of that object keep their values (\<open>async_play\<close> assigns only \<open>data\<close>,
  \<open>media_ids\<close> and \<open>state\<close>). A new object, with the three times 0, is built only when
  the entity has no entry.
\<close>

theorem play_request_reuses_live_player:
  "(\<forall>r. data_playlist_players h eid = Some r \<longrightarrow>
      (\<exists>h'. async_play_media (cd\<lparr>cd_entity_id := Some [eid]\<rparr>) h = (None, h')
         \<and> data_playlist_players h' = data_playlist_players h
         \<and> next_ref h' = next_ref h
         \<and> start_time (objects h' r) = start_time (objects h r)
         \<and> time_left (objects h' r) = time_left (objects h r)
         \<and> time_past (objects h' r) = time_past (objects h r)
         \<and> state (objects h' r) = Some STATE_IDLE))
 \<and> (data_playlist_players h eid = None \<longrightarrow>
      (\<exists>h'. async_play_media (cd\<lparr>cd_entity_id := Some [eid]\<rparr>) h = (None, h')
         \<and> data_playlist_players h' = (data_playlist_players h)(eid \<mapsto> next_ref h)
         \<and> next_ref h' = Suc (next_ref h)
         \<and> start_time (objects h' (next_ref h)) = 0
         \<and> time_left (objects h' (next_ref h)) = 0
         \<and> time_past (objects h' (next_ref h)) = 0
         \<and> state (objects h' (next_ref h)) = Some STATE_IDLE))"
proof -
  define cd1 where "cd1 = cd\<lparr>cd_entity_id := Some [eid]\<rparr>"
  obtain m ms where ids: "split CHR '','' (cd_media_content_id cd1) = m # ms"
    using split_not_Nil [of "CHR '',''" "cd_media_content_id cd1"]
    by (cases "split CHR '','' (cd_media_content_id cd1)") auto
  have a: "\<exists>h'. async_play_media cd1 h = (None, h')
         \<and> data_playlist_players h' = data_playlist_players h
         \<and> next_ref h' = next_ref h
         \<and> start_time (objects h' r) = start_time (objects h r)
         \<and> time_left (objects h' r) = time_left (objects h r)
         \<and> time_past (objects h' r) = time_past (objects h r)
         \<and> state (objects h' r) = Some STATE_IDLE"
    if reg: "data_playlist_players h eid = Some r" for r
  proof -
    have "async_play_media cd1 h = PlaylistPlayer_async_play r cd1 h"
      using reg by (simp add: cd1_def play_media_single play_entity_def)
    with play_props [OF ids, of r h] show ?thesis by auto
  qed
  have b: "\<exists>h'. async_play_media cd1 h = (None, h')
         \<and> data_playlist_players h' = (data_playlist_players h)(eid \<mapsto> next_ref h)
         \<and> next_ref h' = Suc (next_ref h)
         \<and> start_time (objects h' (next_ref h)) = 0
         \<and> time_left (objects h' (next_ref h)) = 0
         \<and> time_past (objects h' (next_ref h)) = 0
         \<and> state (objects h' (next_ref h)) = Some STATE_IDLE"
    if none: "data_playlist_players h eid = None"
  proof -
    define h2 where "h2 = h\<lparr>objects := (objects h)(next_ref h := PlaylistPlayer_init eid),
                next_ref := Suc (next_ref h),
                data_playlist_players := (data_playlist_players h)(eid \<mapsto> next_ref h)\<rparr>"
    have pe: "async_play_media cd1 h = PlaylistPlayer_async_play (next_ref h) cd1 h2"
      using none by (simp add: cd1_def play_media_single play_entity_def Let_def h2_def)
    have f: "data_playlist_players h2 = (data_playlist_players h)(eid \<mapsto> next_ref h)"
      "next_ref h2 = Suc (next_ref h)"
      "start_time (objects h2 (next_ref h)) = 0" "time_left (objects h2 (next_ref h)) = 0"
      "time_past (objects h2 (next_ref h)) = 0"
      by (simp_all add: h2_def PlaylistPlayer_init_def)
    from play_props [OF ids, of "next_ref h" h2] pe f show ?thesis by auto
  qed
  show ?thesis unfolding cd1_def [symmetric] using a b by blast
qed

text \<open>
  At the example: the television has an entry, the radio has none.
\<close>

theorem play_request_reuses_live_player_witness:
  "data_playlist_players ex_hass ''media_player.tv'' = Some 0
 \<and> (\<exists>h'. async_play_media (ex_cd\<lparr>cd_entity_id := Some [''media_player.tv'']\<rparr>) ex_hass = (None, h')
         \<and> data_playlist_players h' = data_playlist_players ex_hass
         \<and> next_ref h' = next_ref ex_hass
         \<and> start_time (objects h' 0) = start_time (objects ex_hass 0)
         \<and> time_left (objects h' 0) = time_left (objects ex_hass 0)
         \<and> time_past (objects h' 0) = time_past (objects ex_hass 0)
         \<and> state (objects h' 0) = Some STATE_IDLE)
 \<and> data_playlist_players ex_hass ''media_player.radio'' = None
 \<and> (\<exists>h'. async_play_media (ex_cd\<lparr>cd_entity_id := Some [''media_player.radio'']\<rparr>) ex_hass = (None, h')
         \<and> data_playlist_players h'
              = (data_playlist_players ex_hass)(''media_player.radio'' \<mapsto> next_ref ex_hass)
         \<and> next_ref h' = Suc (next_ref ex_hass)
         \<and> start_time (objects h' (next_ref ex_hass)) = 0
         \<and> time_left (objects h' (next_ref ex_hass)) = 0
         \<and> time_past (objects h' (next_ref ex_hass)) = 0
         \<and> state (objects h' (next_ref ex_hass)) = Some STATE_IDLE)"
proof -
  have a: "data_playlist_players ex_hass ''media_player.tv'' = Some 0"
    and b: "data_playlist_players ex_hass ''media_player.radio'' = None"
    by (simp_all add: ex_hass_def)
  from play_request_reuses_live_player [of ex_hass "''media_player.tv''" ex_cd]
       play_request_reuses_live_player [of ex_hass "''media_player.radio''" ex_cd] a b
  show ?thesis by blast
qed

text \<open>
  The claim as written fails at the example: after the request the television's entry
  is the object it was before, nothing has been allocated, and the object's
  \<open>time_past\<close>, \<open>time_left\<close> and \<open>start_time\<close> are not those of a new instance.
\<close>

theorem play_request_fresh_instance_counterexample:
  "data_playlist_players ex_hass ''media_player.tv'' = Some 0
 \<and> fst (async_play_media ex_cd ex_hass) = None
 \<and> data_playlist_players (snd (async_play_media ex_cd ex_hass)) ''media_player.tv'' = Some 0
 \<and> next_ref (snd (async_play_media ex_cd ex_hass)) = next_ref ex_hass
 \<and> time_past (objects (snd (async_play_media ex_cd ex_hass)) 0)
      \<noteq> time_past (PlaylistPlayer_init ''media_player.tv'')
 \<and> time_left (objects (snd (async_play_media ex_cd ex_hass)) 0)
      \<noteq> time_left (PlaylistPlayer_init ''media_player.tv'')
 \<and> start_time (objects (snd (async_play_media ex_cd ex_hass)) 0)
      \<noteq> start_time (PlaylistPlayer_init ''media_player.tv'')"
  by (simp add: async_play_media_def ex_cd_def ex_hass_def ex_player_def play_entity_def
      PlaylistPlayer_async_play_def PlaylistPlayer_async_media_next_track_def Let_def upd_simps
      and_then_simps PlaylistPlayer_init_def)

text \<open>
  Claim C5. A play request whose entity-id list is empty raises the error of the first
  statement of the handler (Python's \<open>RuntimeError\<close> with the message
  \<open>Empty entity_id not supported.\<close>, the specification's invalid-request error) before
  the loop over the entities: no object is built and \<open>hass\<close> is left as it was.
\<close>

theorem empty_entity_list_fails_fast:
  "async_play_media (cd\<lparr>cd_entity_id := Some []\<rparr>) h
     = (Some (RuntimeError ''Empty entity_id not supported.''), h)"
  by (simp add: async_play_media_def)

text \<open>
  Claim C6. A state-changed event for an entity id that has no entry in the dictionary
  does nothing: no error, no new object, the same \<open>hass\<close>.
\<close>

theorem state_changed_unknown_entity_noop:
  "data_playlist_players h eid = None \<Longrightarrow>
   async_state_changed \<lparr>ev_entity_id = Some eid, ev_new_state = new_state\<rparr> now h = (None, h)"
  by (simp add: async_state_changed_def)

theorem state_changed_unknown_entity_noop_witness:
  "data_playlist_players ex_hass ''media_player.radio'' = None \<and>
   async_state_changed \<lparr>ev_entity_id = Some ''media_player.radio'', ev_new_state = Some ex_playing\<rparr>
     2000 ex_hass = (None, ex_hass)"
proof -
  have a: "data_playlist_players ex_hass ''media_player.radio'' = None"
    by (simp add: ex_hass_def)
  from state_changed_unknown_entity_noop [OF a, of "Some ex_playing" 2000] a
  show ?thesis by blast
qed

text \<open>
  Claim C7, as the code has it. \<open>async_stop\<close> has no guard: its first statement is the
  \<open>del\<close> of the entry under \<open>self.entity_id\<close>. The call returns normally exactly when
  \<open>self.entity_id\<close> is a key of the dictionary; otherwise it raises \<open>KeyError\<close> and changes
  nothing. Since a successful call sets \<open>self.entity_id\<close> to \<open>None\<close>, a second call on the
  same object always raises \<open>KeyError\<close>.
\<close>

theorem stop_not_guarded:
  "(fst (PlaylistPlayer_async_stop self h) = None \<longleftrightarrow>
      (\<exists>eid. entity_id (objects h self) = Some eid \<and> data_playlist_players h eid \<noteq> None))
 \<and> (fst (PlaylistPlayer_async_stop self h) \<noteq> None \<longrightarrow>
      PlaylistPlayer_async_stop self h = (Some KeyError, h))
 \<and> PlaylistPlayer_async_stop self (snd (PlaylistPlayer_async_stop self h))
      = (Some KeyError, snd (PlaylistPlayer_async_stop self h))"
  by (auto simp: PlaylistPlayer_async_stop_def upd_simps split: option.splits)

theorem stop_not_guarded_witness:
  "entity_id (objects ex_hass 0) = Some ''media_player.tv''
 \<and> data_playlist_players ex_hass ''media_player.tv'' \<noteq> None
 \<and> fst (PlaylistPlayer_async_stop 0 ex_hass) = None
 \<and> PlaylistPlayer_async_stop 0 (snd (PlaylistPlayer_async_stop 0 ex_hass))
      = (Some KeyError, snd (PlaylistPlayer_async_stop 0 ex_hass))"
proof -
  have a: "entity_id (objects ex_hass 0) = Some ''media_player.tv''"
    and b: "data_playlist_players ex_hass ''media_player.tv'' \<noteq> None"
    by (simp_all add: ex_hass_def ex_player_def)
  from stop_not_guarded [of 0 ex_hass] a b show ?thesis by blast
qed

text \<open>
  The claim as written fails at the example: the first \<open>async_stop\<close> of the television's
  player removes the entry, and the second call, on the object whose entry is gone,
  raises \<open>KeyError\<close>.
\<close>

theorem stop_twice_counterexample:
  "fst (PlaylistPlayer_async_stop 0 ex_hass) = None \<and>
   data_playlist_players (snd (PlaylistPlayer_async_stop 0 ex_hass)) ''media_player.tv'' = None \<and>
   fst (PlaylistPlayer_async_stop 0 (snd (PlaylistPlayer_async_stop 0 ex_hass))) = Some KeyError"
  by (simp add: PlaylistPlayer_async_stop_def ex_hass_def ex_player_def upd_simps)

text \<open>
  Claim C8, as the code has it. The final assignment \<open>self.state = new_state.state\<close> is
  reached on every branch for the four supported states, also after \<open>async_stop\<close> on the
  paths to idle and to off: when the call returns normally the object's \<open>state\<close> is the
  new state's string, although the object is no longer in the dictionary. Only the
  branch of an unsupported state returns straight after \<open>async_stop\<close> and leaves \<open>state\<close>
  as it was, as does a call that raises.
\<close>

theorem state_written_except_unsupported:
  "state (objects (snd (PlaylistPlayer_async_state_changed self new_state now h)) self)
     = (if fst (PlaylistPlayer_async_state_changed self new_state now h) = None
           \<and> recognized (ns_state new_state)
        then Some (ns_state new_state)
        else state (objects h self))"
proof (cases "state (objects h self)")
  case None
  then show ?thesis by (simp add: PlaylistPlayer_async_state_changed_def)
next
  case (Some st)
  consider (playing) "ns_state new_state = STATE_PLAYING"
    | (paused) "ns_state new_state = STATE_PAUSED"
    | (idle) "ns_state new_state = STATE_IDLE"
    | (off) "ns_state new_state = STATE_OFF"
    | (other) "\<not> recognized (ns_state new_state)"
    by (auto simp: recognized_def)
  then show ?thesis
  proof cases
    case playing
    then show ?thesis using Some
      by (simp add: PlaylistPlayer_async_state_changed_def set_state_def upd_simps Let_def
          recognized_def)
  next
    case paused
    then show ?thesis using Some
      by (simp add: PlaylistPlayer_async_state_changed_def set_state_def upd_simps
          STATE_distinct recognized_def)
  next
    case idle
    then show ?thesis using Some
      by (simp add: PlaylistPlayer_async_state_changed_def STATE_distinct recognized_def Let_def
          and_then_set_state and_then_fst stop_state next_track_state upd_simps)
        (simp add: set_state_def upd_simps)
  next
    case off
    then show ?thesis using Some
      by (simp add: PlaylistPlayer_async_state_changed_def STATE_distinct recognized_def
          and_then_set_state and_then_fst stop_state)
  next
    case other
    then show ?thesis using Some
      by (auto simp: PlaylistPlayer_async_state_changed_def recognized_def stop_state)
  qed
qed

text \<open>
  At the example, for the off state (supported: written after the stop) and for a state
  string that has no branch (not written).
\<close>

theorem state_written_except_unsupported_witness:
  "fst (PlaylistPlayer_async_state_changed 0 ex_off 2000 ex_hass) = None
 \<and> recognized (ns_state ex_off)
 \<and> state (objects (snd (PlaylistPlayer_async_state_changed 0 ex_off 2000 ex_hass)) 0)
     = Some (ns_state ex_off)
 \<and> \<not> recognized (ns_state (ex_off\<lparr>ns_state := ''buffering''\<rparr>))
 \<and> state (objects (snd (PlaylistPlayer_async_state_changed 0
       (ex_off\<lparr>ns_state := ''buffering''\<rparr>) 2000 ex_hass)) 0) = state (objects ex_hass 0)"
proof -
  have a: "fst (PlaylistPlayer_async_state_changed 0 ex_off 2000 ex_hass) = None"
    by (simp add: PlaylistPlayer_async_state_changed_def PlaylistPlayer_async_stop_def ex_off_def
        ex_hass_def ex_player_def STATE_distinct upd_simps and_then_simps set_state_def)
  have b: "recognized (ns_state ex_off)" by (simp add: recognized_def ex_off_def)
  have c: "\<not> recognized (ns_state (ex_off\<lparr>ns_state := ''buffering''\<rparr>))"
    by (simp add: recognized_def STATE_IDLE_def STATE_PLAYING_def STATE_PAUSED_def STATE_OFF_def)
  from state_written_except_unsupported [of 0 ex_off 2000 ex_hass]
       state_written_except_unsupported [of 0 "ex_off\<lparr>ns_state := ''buffering''\<rparr>" 2000 ex_hass]
       a b c
  show ?thesis by simp
qed

text \<open>
  The claim as written fails on the off row: the television's player is stopped (its
  entry is removed) and its \<open>state\<close> is then written all the same.
\<close>

theorem state_written_after_stop_counterexample:
  "ns_state ex_off = STATE_OFF \<and>
   fst (PlaylistPlayer_async_state_changed 0 ex_off 2000 ex_hass) = None \<and>
   data_playlist_players (snd (PlaylistPlayer_async_state_changed 0 ex_off 2000 ex_hass))
     ''media_player.tv'' = None \<and>
   state (objects (snd (PlaylistPlayer_async_state_changed 0 ex_off 2000 ex_hass)) 0)
     \<noteq> state (objects ex_hass 0)"
  by (simp add: PlaylistPlayer_async_state_changed_def PlaylistPlayer_async_stop_def ex_off_def
      ex_hass_def ex_player_def STATE_distinct upd_simps and_then_simps set_state_def)

text \<open>
  Claim C9. \<open>async_play\<close> takes the pending list from the content id split at commas. The
  split never gives an empty list (the empty string gives the list of one empty string),
  so the \<open>async_media_next_track\<close> that \<open>async_play\<close> calls always hands over exactly one
  play command, for the first piece, and does not reach \<open>async_stop\<close>: no exception, the
  dictionary and the object's \<open>entity_id\<close> are as before, and the rest of the pieces is
  pending.
\<close>

theorem play_dispatches_first_item:
  "split CHR '','' s \<noteq> [] \<and> split CHR '','' [] = [[]]
 \<and> (\<exists>h'. PlaylistPlayer_async_play self cd h = (None, h')
       \<and> jobs h' = jobs h @ [\<lparr>sd_entity_id = entity_id (objects h self),
             sd_media_content_id = hd (split CHR '','' (cd_media_content_id cd)),
             sd_other = cd_other cd\<rparr>]
       \<and> data_playlist_players h' = data_playlist_players h
       \<and> entity_id (objects h' self) = entity_id (objects h self)
       \<and> media_ids (objects h' self) = Some (tl (split CHR '','' (cd_media_content_id cd))))"
proof -
  obtain m ms where ids: "split CHR '','' (cd_media_content_id cd) = m # ms"
    using split_not_Nil [of "CHR '',''" "cd_media_content_id cd"]
    by (cases "split CHR '','' (cd_media_content_id cd)") auto
  from play_props [OF ids, of self h] have "\<exists>h'. PlaylistPlayer_async_play self cd h = (None, h')
       \<and> jobs h' = jobs h @ [\<lparr>sd_entity_id = entity_id (objects h self),
             sd_media_content_id = m, sd_other = cd_other cd\<rparr>]
       \<and> data_playlist_players h' = data_playlist_players h
       \<and> entity_id (objects h' self) = entity_id (objects h self)
       \<and> media_ids (objects h' self) = Some ms"
    by auto
  then show ?thesis by (simp add: ids split_not_Nil)
qed

text \<open>
  Claim C10. \<open>async_stop\<close> of the player registered for one entity removes that entity's
  entry and no other: for every other entity id the entry is the same and the object it
  leads to has all its fields unchanged; no command is issued. The dictionary is in a
  state the handlers can produce (\<open>registry_ok\<close>).
\<close>

theorem stop_removes_only_own_entry:
  assumes ok: "registry_ok h" and reg: "data_playlist_players h eid = Some self"
  shows "\<exists>h'. PlaylistPlayer_async_stop self h = (None, h')
     \<and> data_playlist_players h' eid = None
     \<and> jobs h' = jobs h
     \<and> (\<forall>eid'. eid' \<noteq> eid \<longrightarrow>
          data_playlist_players h' eid' = data_playlist_players h eid'
        \<and> (\<forall>r. data_playlist_players h eid' = Some r \<longrightarrow> objects h' r = objects h r))"
proof -
  from ok reg have e: "entity_id (objects h self) = Some eid"
    by (simp add: registry_ok_def)
  have other: "r \<noteq> self" if "eid' \<noteq> eid" "data_playlist_players h eid' = Some r" for eid' r
    using that ok e by (auto simp: registry_ok_def)
  show ?thesis
    using other by (simp add: stop_registered [OF e reg] upd_simps)
qed

text \<open>
  At the example: stopping the television's player leaves the entry and the object of
  the other entity alone.
\<close>

theorem stop_removes_only_own_entry_witness:
  "data_playlist_players ex_hass ''media_player.tv'' = Some 0
 \<and> data_playlist_players ex_hass ''media_player.kodi'' = Some 1
 \<and> (\<exists>h'. PlaylistPlayer_async_stop 0 ex_hass = (None, h')
       \<and> data_playlist_players h' ''media_player.tv'' = None
       \<and> data_playlist_players h' ''media_player.kodi'' = Some 1
       \<and> objects h' 1 = objects ex_hass 1)"
proof -
  have reg: "data_playlist_players ex_hass ''media_player.tv'' = Some 0"
    and oth: "data_playlist_players ex_hass ''media_player.kodi'' = Some 1"
    by (simp_all add: ex_hass_def)
  have ne: "''media_player.kodi'' \<noteq> ''media_player.tv''" by simp
  from stop_removes_only_own_entry [OF registry_ok_ex_hass reg] reg oth ne
  show ?thesis by metis
qed

end
